theory Spec2Isabelle
  imports Complex_Main
begin

section \<open>Enumerations of \<open>utils.py\<close>\<close>

text \<open>
  The four enumerations of the module. \<open>ObsType\<close> and \<open>ActionType\<close> both have a member
  called \<open>REGULAR\<close>; the observation one is written \<open>REGULAR_OBS\<close> here.
  \<open>DISCRETIZIED\<close> keeps the spelling of the source.
\<close>

datatype ObsType = REGULAR_OBS | ROOM_STATE_VECTOR | ROOM_STATE_MATRIX | BOX2D

datatype ActionType = REGULAR | PUSH_ONLY | PUSH_PULL | GAUSSIAN | DISCRETIZIED

datatype MoveType =
  PUSH_UP | PUSH_DOWN | PUSH_LEFT | PUSH_RIGHT | PULL_UP | PULL_DOWN | PULL_LEFT | PULL_RIGHT

datatype TileType = WALL | FLOOR | TARGET | BOX_ON_TARGET | BOX | PLAYER

text \<open>The Python exceptions that the modelled code can raise.\<close>

datatype error =
  IndexError | ValueError | KeyError | TypeError | AttributeError
  | ZeroDivisionError | RuntimeError | NotImplementedError

text \<open>
  \<open>MoveType(v)\<close> and \<open>TileType(v)\<close>: the lookup of an enumeration member by value, which
  raises \<open>ValueError\<close> for a number that no member has.
\<close>

definition MoveType_of :: "int \<Rightarrow> error + MoveType" where
  "MoveType_of v =
     (if v = 1 then Inr PUSH_UP else if v = 2 then Inr PUSH_DOWN
      else if v = 3 then Inr PUSH_LEFT else if v = 4 then Inr PUSH_RIGHT
      else if v = 9 then Inr PULL_UP else if v = 10 then Inr PULL_DOWN
      else if v = 11 then Inr PULL_LEFT else if v = 12 then Inr PULL_RIGHT
      else Inl ValueError)"

definition TileType_of :: "int \<Rightarrow> error + TileType" where
  "TileType_of v =
     (if v = 0 then Inr WALL else if v = 1 then Inr FLOOR
      else if v = 2 then Inr TARGET else if v = 3 then Inr BOX_ON_TARGET
      else if v = 4 then Inr BOX else if v = 5 then Inr PLAYER
      else Inl ValueError)"

definition PULL_MOVES :: "MoveType list" where
  "PULL_MOVES = [PULL_UP, PULL_DOWN, PULL_LEFT, PULL_RIGHT]"

definition BOX_TILES :: "TileType list" where
  "BOX_TILES = [BOX, BOX_ON_TARGET]"

section \<open>The grid move validator\<close>

text \<open>
  The room is a two-dimensional numpy array of tile codes, modelled as the list of its
  rows (all of one length, as the rows of an array are). An index \<open>i\<close> into an axis of
  length \<open>n\<close> is accepted by numpy when \<open>-n \<le> i < n\<close>, a negative one counting from the
  end; any other index raises \<open>IndexError\<close>.
\<close>

type_synonym room = "int list list"

definition np_index :: "'a list \<Rightarrow> int \<Rightarrow> error + 'a" where
  "np_index xs i =
     (if 0 \<le> i \<and> i < int (length xs) then Inr (xs ! nat i)
      else if i < 0 \<and> - int (length xs) \<le> i then Inr (xs ! nat (i + int (length xs)))
      else Inl IndexError)"

text \<open>\<open>room[i, j]\<close>\<close>

definition room_at :: "room \<Rightarrow> int \<Rightarrow> int \<Rightarrow> error + int" where
  "room_at rm i j =
     (case np_index rm i of Inl e \<Rightarrow> Inl e | Inr row \<Rightarrow> np_index row j)"

text \<open>
  \<open>get_tiles\<close>: the displacement \<open>(dy, dx)\<close> from the chain of comparisons, then the tile
  after and the tile before, read and converted in that order.
\<close>

definition get_tiles :: "room \<Rightarrow> int \<times> int \<Rightarrow> MoveType \<Rightarrow> error + (TileType \<times> TileType)" where
  "get_tiles rm player_pos move =
     (let (dy, dx) =
            (if move = PUSH_UP \<or> move = PULL_UP then (- 1, 0)
             else if move = PUSH_DOWN \<or> move = PULL_DOWN then (1, 0)
             else if move = PUSH_LEFT \<or> move = PULL_LEFT then (0, - 1)
             else if move = PUSH_RIGHT \<or> move = PULL_RIGHT then (0, 1)
             else (0, 0))
      in case room_at rm (fst player_pos + dy) (snd player_pos + dx) of
           Inl e \<Rightarrow> Inl e
         | Inr va \<Rightarrow>
            (case TileType_of va of
               Inl e \<Rightarrow> Inl e
             | Inr tile_after \<Rightarrow>
                (case room_at rm (fst player_pos - dy) (snd player_pos - dx) of
                   Inl e \<Rightarrow> Inl e
                 | Inr vb \<Rightarrow>
                    (case TileType_of vb of
                       Inl e \<Rightarrow> Inl e
                     | Inr tile_before \<Rightarrow> Inr (tile_after, tile_before)))))"

definition is_valid_command :: "room \<Rightarrow> int \<times> int \<Rightarrow> MoveType \<Rightarrow> error + bool" where
  "is_valid_command rm player_pos move =
     (case get_tiles rm player_pos move of
        Inl e \<Rightarrow> Inl e
      | Inr (tile_after, tile_before) \<Rightarrow>
          (let is_valid = True;
               is_valid = (if tile_after = WALL then False else is_valid);
               is_valid = (if move \<in> set PULL_MOVES \<and> tile_before \<notin> set BOX_TILES
                           then False else is_valid)
           in Inr is_valid))"

text \<open>
  The vocabulary of the specification, for stating the validator's contract: the unit
  displacement of a move as (row, column) offsets, the pull moves, the cells that lie in
  the grid and the tile code stored in such a cell.
\<close>

fun displacement :: "MoveType \<Rightarrow> int \<times> int" where
  "displacement PUSH_UP = (- 1, 0)"
| "displacement PULL_UP = (- 1, 0)"
| "displacement PUSH_DOWN = (1, 0)"
| "displacement PULL_DOWN = (1, 0)"
| "displacement PUSH_LEFT = (0, - 1)"
| "displacement PULL_LEFT = (0, - 1)"
| "displacement PUSH_RIGHT = (0, 1)"
| "displacement PULL_RIGHT = (0, 1)"

fun is_pull :: "MoveType \<Rightarrow> bool" where
  "is_pull PULL_UP = True"
| "is_pull PULL_DOWN = True"
| "is_pull PULL_LEFT = True"
| "is_pull PULL_RIGHT = True"
| "is_pull _ = False"

definition in_grid :: "room \<Rightarrow> int \<times> int \<Rightarrow> bool" where
  "in_grid rm p =
     (0 \<le> fst p \<and> fst p < int (length rm)
      \<and> 0 \<le> snd p \<and> snd p < int (length (rm ! nat (fst p))))"

definition cell :: "room \<Rightarrow> int \<times> int \<Rightarrow> int" where
  "cell rm p = rm ! nat (fst p) ! nat (snd p)"

definition tile_code :: "int \<Rightarrow> bool" where
  "tile_code v = (0 \<le> v \<and> v \<le> 5)"

definition ahead :: "int \<times> int \<Rightarrow> MoveType \<Rightarrow> int \<times> int" where
  "ahead p move = (fst p + fst (displacement move), snd p + snd (displacement move))"

definition behind :: "int \<times> int \<Rightarrow> MoveType \<Rightarrow> int \<times> int" where
  "behind p move = (fst p - fst (displacement move), snd p - snd (displacement move))"

text \<open>
  A room as the environment provides it: at least one row, every row as long as the
  first, every entry a tile code. \<open>wrap\<close> is the position that numpy reads for an
  accepted index into an axis of length \<open>n\<close>.
\<close>

definition well_formed_room :: "room \<Rightarrow> bool" where
  "well_formed_room rm =
     (rm \<noteq> [] \<and> list_all (\<lambda>row. length row = length (hd rm) \<and> list_all tile_code row) rm)"

definition wrap :: "nat \<Rightarrow> int \<Rightarrow> int" where
  "wrap n i = (if i < 0 then i + int n else i)"

section \<open>The wrapped environment\<close>

text \<open>
  The gym environment that \<open>EnvWrapper\<close> wraps is created by \<open>gym.make\<close> and is not part
  of \<open>utils.py\<close>. The model keeps the attributes that the wrapper reads: the declared
  spaces, and for a Sokoban environment the room and the player's position (absent, so
  that reading them raises \<open>AttributeError\<close>, for other environments). Everything else
  the simulator holds is the field \<open>sim\<close>. The environment's own \<open>reset\<close> and \<open>step\<close> are
  parameters of the functions below; they may raise.
\<close>

datatype space = Discrete nat | Box "real list" "real list"

record 's gym_env =
  observation_space_shape0 :: nat
  action_space :: space
  room_state :: "room option"
  player_position :: "(int \<times> int) option"
  env_max_steps :: int
  sim :: 's

text \<open>
  An action is the integer index chosen by a policy over a discrete space, or an array
  of reals for a continuous one (one- or two-dimensional). A raw observation is the
  state vector of the environment; the projected observation is the raw one, the
  flattened room or the room.
\<close>

datatype action = Index int | Array "real list" | Matrix "real list list"

datatype obs = Raw "real list" | RoomVector "int list" | RoomMatrix "int list list"

type_synonym ('s, 'i) env_step =
  "'s gym_env \<Rightarrow> action \<Rightarrow> error + ((real list \<times> real \<times> bool \<times> 'i) \<times> 's gym_env)"

type_synonym 's env_reset = "'s gym_env \<Rightarrow> error + (real list \<times> 's gym_env)"

section \<open>\<open>EnvWrapper\<close>\<close>

record 's EnvWrapper =
  obs_type :: ObsType
  env :: "'s gym_env"
  env_name :: string
  max_steps :: int
  action_type :: ActionType
  num_discrete :: int
  discrete_array :: "real list"
  split_discrete_array :: "real list"
  cone_trick :: bool
  move_trick :: bool
  obs_size :: nat
  num_actions :: nat

text \<open>
  The keyword arguments of the constructor: \<open>kwargs['cone_trick']\<close> and the like raise
  \<open>KeyError\<close> when the key is absent.
\<close>

record kwargs =
  kw_cone_trick :: "bool option"
  kw_move_trick :: "bool option"
  kw_num_discrete :: "int option"

definition kwargs_get :: "'a option \<Rightarrow> error + 'a" where
  "kwargs_get v = (case v of None \<Rightarrow> Inl KeyError | Some x \<Rightarrow> Inr x)"

text \<open>
  \<open>torch.arange(start, end, step)\<close> over the reals: the values \<open>start + i * step\<close> for
  \<open>0 \<le> i < \<lceil>(end - start) / step\<rceil>\<close>. A zero step, or a step whose sign disagrees with
  the bounds, raises \<open>RuntimeError\<close>. Rounding of floating-point numbers is not modelled.
\<close>

definition torch_arange :: "real \<Rightarrow> real \<Rightarrow> real \<Rightarrow> error + real list" where
  "torch_arange start end step =
     (if step = 0 then Inl RuntimeError
      else if (0 < step \<and> end < start) \<or> (step < 0 \<and> start < end) then Inl RuntimeError
      else Inr (map (\<lambda>i. start + real i * step) [0..<nat \<lceil>(end - start) / step\<rceil>]))"

text \<open>Python's \<open>x / n\<close> for a float \<open>x\<close> and an integer \<open>n\<close>.\<close>

definition py_truediv :: "real \<Rightarrow> int \<Rightarrow> error + real" where
  "py_truediv x n = (if n = 0 then Inl ZeroDivisionError else Inr (x / real_of_int n))"

text \<open>
  Lines 185 to 194 of \<open>__init__\<close>, the DISCRETIZIED branch, from the first components of
  the declared bounds: the table \<open>discrete_array\<close> and the table \<open>split_discrete_array\<close>,
  the concatenation of a lower and an upper half.
\<close>

definition discretize :: "real \<Rightarrow> real \<Rightarrow> int \<Rightarrow> error + (real list \<times> real list)" where
  "discretize low high n =
     (case py_truediv (high - low) n of
        Inl e \<Rightarrow> Inl e
      | Inr step \<Rightarrow>
         (case torch_arange low high step of
            Inl e \<Rightarrow> Inl e
          | Inr darr \<Rightarrow>
             (case py_truediv (- low / 2) (n div 2) of
                Inl e \<Rightarrow> Inl e
              | Inr step_a \<Rightarrow>
                 (case torch_arange low (low / 2) step_a of
                    Inl e \<Rightarrow> Inl e
                  | Inr a \<Rightarrow>
                     (case py_truediv (high / 2) (n div 2) of
                        Inl e \<Rightarrow> Inl e
                      | Inr step_b \<Rightarrow>
                         (case torch_arange (high / 2) high step_b of
                            Inl e \<Rightarrow> Inl e
                          | Inr b \<Rightarrow> Inr (darr, a @ b)))))))"

definition init_obs_size :: "ObsType \<Rightarrow> 's gym_env \<Rightarrow> error + nat" where
  "init_obs_size otype e =
     (case otype of
        REGULAR_OBS \<Rightarrow> Inr (observation_space_shape0 e)
      | ROOM_STATE_VECTOR \<Rightarrow>
          (case room_state e of None \<Rightarrow> Inl AttributeError | Some rm \<Rightarrow> Inr ((length rm)\<^sup>2))
      | ROOM_STATE_MATRIX \<Rightarrow>
          (case room_state e of None \<Rightarrow> Inl AttributeError | Some rm \<Rightarrow> Inr (length rm))
      | BOX2D \<Rightarrow> Inr (observation_space_shape0 e))"

text \<open>
  \<open>__init__\<close>. \<open>gym_make\<close> stands for \<open>gym.make\<close>. The result of the action-type branch is
  the tuple (\<open>num_actions\<close>, \<open>num_discrete\<close>, \<open>discrete_array\<close>, \<open>split_discrete_array\<close>).
\<close>

definition init_actions ::
  "ActionType \<Rightarrow> 's gym_env \<Rightarrow> kwargs \<Rightarrow> error + (nat \<times> int \<times> real list \<times> real list)" where
  "init_actions atype e kw =
     (case atype of
        REGULAR \<Rightarrow>
          (case action_space e of
             Discrete n \<Rightarrow> Inr (n, 0, [], [])
           | Box _ _ \<Rightarrow> Inl AttributeError)
      | PUSH_ONLY \<Rightarrow> Inr (4, 0, [], [])
      | PUSH_PULL \<Rightarrow> Inr (8, 0, [], [])
      | GAUSSIAN \<Rightarrow>
          (case action_space e of
             Discrete _ \<Rightarrow> Inl IndexError
           | Box low high \<Rightarrow> Inr (length low, 0, [], []))
      | DISCRETIZIED \<Rightarrow>
          (case action_space e of
             Discrete _ \<Rightarrow> Inl IndexError
           | Box low high \<Rightarrow>
              (case kwargs_get (kw_num_discrete kw) of
                 Inl err \<Rightarrow> Inl err
               | Inr n \<Rightarrow>
                  (if low = [] \<or> high = [] then Inl IndexError
                   else (case discretize (hd low) (hd high) n of
                           Inl err \<Rightarrow> Inl err
                         | Inr (darr, sarr) \<Rightarrow> Inr (length low, n, darr, sarr))))))"

definition EnvWrapper_init ::
  "(string \<Rightarrow> error + 's gym_env) \<Rightarrow> string \<Rightarrow> ObsType \<Rightarrow> ActionType \<Rightarrow> int \<Rightarrow> kwargs
     \<Rightarrow> error + 's EnvWrapper" where
  "EnvWrapper_init gym_make name otype atype msteps kw =
     (case gym_make name of
        Inl err \<Rightarrow> Inl err
      | Inr e0 \<Rightarrow>
         (let e = e0\<lparr>env_max_steps := msteps\<rparr> in
          case kwargs_get (kw_cone_trick kw) of
            Inl err \<Rightarrow> Inl err
          | Inr ct \<Rightarrow>
             (case kwargs_get (kw_move_trick kw) of
                Inl err \<Rightarrow> Inl err
              | Inr mt \<Rightarrow>
                 (case init_obs_size otype e of
                    Inl err \<Rightarrow> Inl err
                  | Inr osz \<Rightarrow>
                     (case init_actions atype e kw of
                        Inl err \<Rightarrow> Inl err
                      | Inr (na, nd, darr, sarr) \<Rightarrow>
                          Inr \<lparr>obs_type = otype, env = e, env_name = name, max_steps = msteps,
                               action_type = atype, num_discrete = nd, discrete_array = darr,
                               split_discrete_array = sarr, cone_trick = ct, move_trick = mt,
                               obs_size = osz, num_actions = na\<rparr>)))))"

definition process_obs :: "'s EnvWrapper \<Rightarrow> real list \<Rightarrow> error + obs" where
  "process_obs w raw =
     (if obs_type w = REGULAR_OBS \<or> obs_type w = BOX2D then Inr (Raw raw)
      else if obs_type w = ROOM_STATE_VECTOR then
        (case room_state (env w) of
           None \<Rightarrow> Inl AttributeError
         | Some rm \<Rightarrow> Inr (RoomVector (concat rm)))
      else
        (case room_state (env w) of
           None \<Rightarrow> Inl AttributeError
         | Some rm \<Rightarrow> Inr (RoomMatrix rm)))"

definition reset :: "'s env_reset \<Rightarrow> 's EnvWrapper \<Rightarrow> error + (obs \<times> 's EnvWrapper)" where
  "reset env_reset w =
     (case env_reset (env w) of
        Inl err \<Rightarrow> Inl err
      | Inr (raw, e) \<Rightarrow>
         (case process_obs (w\<lparr>env := e\<rparr>) raw of
            Inl err \<Rightarrow> Inl err
          | Inr ob \<Rightarrow> Inr (ob, w\<lparr>env := e\<rparr>)))"

text \<open>
  Lines 201 to 214 of \<open>step\<close>: the encoding of the action. In the two continuous modes
  an integer has no \<open>cpu\<close> or \<open>flatten\<close> method. In the PUSH modes \<open>+= 1\<close> on an array adds
  to every entry, and the comparison \<open>action >= 5\<close> has a truth value only for an array
  of one element.
\<close>

definition encode_action :: "ActionType \<Rightarrow> action \<Rightarrow> error + action" where
  "encode_action atype a =
     (case atype of
        REGULAR \<Rightarrow> Inr a
      | PUSH_ONLY \<Rightarrow>
          (case a of
             Index i \<Rightarrow> Inr (Index (i + 1))
           | Array xs \<Rightarrow> Inr (Array (map (\<lambda>x. x + 1) xs))
           | Matrix m \<Rightarrow> Inr (Matrix (map (map (\<lambda>x. x + 1)) m)))
      | PUSH_PULL \<Rightarrow>
          (case a of
             Index i \<Rightarrow> Inr (Index (if i + 1 \<ge> 5 then i + 1 + 4 else i + 1))
           | Array xs \<Rightarrow>
               (case xs of
                  [x] \<Rightarrow> Inr (Array [if x + 1 \<ge> 5 then x + 1 + 4 else x + 1])
                | _ \<Rightarrow> Inl RuntimeError)
           | Matrix m \<Rightarrow>
               (case m of
                  [[x]] \<Rightarrow> Inr (Matrix [[if x + 1 \<ge> 5 then x + 1 + 4 else x + 1]])
                | _ \<Rightarrow> Inl RuntimeError))
      | GAUSSIAN \<Rightarrow>
          (case a of Index _ \<Rightarrow> Inl AttributeError | _ \<Rightarrow> Inr a)
      | DISCRETIZIED \<Rightarrow>
          (case a of
             Index _ \<Rightarrow> Inl AttributeError
           | Array xs \<Rightarrow> Inr (Array xs)
           | Matrix m \<Rightarrow> Inr (Array (concat m))))"

text \<open>
  \<open>math.atan2(y, x)\<close> over the reals (signed zeros and rounding are not modelled).
\<close>

definition atan2 :: "real \<Rightarrow> real \<Rightarrow> real" where
  "atan2 y x =
     (if 0 < x then arctan (y / x)
      else if x < 0 then (if 0 \<le> y then arctan (y / x) + pi else arctan (y / x) - pi)
      else if 0 < y then pi / 2 else if y < 0 then - pi / 2 else 0)"

text \<open>
  \<open>obs[0]\<close> and \<open>obs[1]\<close> as the numbers that \<open>math.atan2\<close> receives. A row of a room
  matrix is an array, which converts to a number only when it has one element.
\<close>

definition obs_xy :: "obs \<Rightarrow> error + (real \<times> real)" where
  "obs_xy ob =
     (case ob of
        Raw xs \<Rightarrow> (if length xs < 2 then Inl IndexError else Inr (xs ! 0, xs ! 1))
      | RoomVector v \<Rightarrow>
          (if length v < 2 then Inl IndexError
           else Inr (real_of_int (v ! 0), real_of_int (v ! 1)))
      | RoomMatrix m \<Rightarrow>
          (if length m < 2 then Inl IndexError
           else if length (m ! 0) = 1 \<and> length (m ! 1) = 1
             then Inr (real_of_int (m ! 0 ! 0), real_of_int (m ! 1 ! 0))
           else Inl TypeError))"

text \<open>Lines 217 to 223 of \<open>step\<close>: the cone trick, on the reward and the done flag.\<close>

definition cone_shaping :: "'s EnvWrapper \<Rightarrow> obs \<Rightarrow> real \<Rightarrow> bool \<Rightarrow> error + (real \<times> bool)" where
  "cone_shaping w ob reward done =
     (if cone_trick w then
        (case obs_xy ob of
           Inl err \<Rightarrow> Inl err
         | Inr (x_pos, y_pos) \<Rightarrow>
            (let alpha = atan2 y_pos \<bar>x_pos\<bar>
             in if alpha < pi / 4 \<and> y_pos > 1 / 3 then Inr (reward - 300, True)
                else Inr (reward, done)))
      else Inr (reward, done))"

text \<open>
  Lines 224 to 231 of \<open>step\<close>: the move trick. \<open>MoveType(action)\<close> is the lookup by
  value; an array is the value of no member.
\<close>

definition move_shaping :: "'s EnvWrapper \<Rightarrow> action \<Rightarrow> real \<Rightarrow> bool \<Rightarrow> error + (real \<times> bool)" where
  "move_shaping w a reward done =
     (if move_trick w then
        (case room_state (env w) of
           None \<Rightarrow> Inl AttributeError
         | Some rm \<Rightarrow>
            (case player_position (env w) of
               None \<Rightarrow> Inl AttributeError
             | Some player_pos \<Rightarrow>
                (case (case a of Index k \<Rightarrow> MoveType_of k | _ \<Rightarrow> Inl ValueError) of
                   Inl err \<Rightarrow> Inl err
                 | Inr move \<Rightarrow>
                    (case is_valid_command rm player_pos move of
                       Inl err \<Rightarrow> Inl err
                     | Inr is_valid \<Rightarrow>
                        (if \<not> is_valid then Inr (reward - 300, True)
                         else Inr (reward, done))))))
      else Inr (reward, done))"

definition step ::
  "('s, 'i) env_step \<Rightarrow> 's EnvWrapper \<Rightarrow> action
     \<Rightarrow> error + ((obs \<times> real \<times> bool \<times> 'i) \<times> 's EnvWrapper)" where
  "step env_step w a0 =
     (case encode_action (action_type w) a0 of
        Inl err \<Rightarrow> Inl err
      | Inr a \<Rightarrow>
         (case env_step (env w) a of
            Inl err \<Rightarrow> Inl err
          | Inr ((raw, reward, done, info), e) \<Rightarrow>
             (let w' = w\<lparr>env := e\<rparr> in
              case process_obs w' raw of
                Inl err \<Rightarrow> Inl err
              | Inr ob \<Rightarrow>
                 (case cone_shaping w' ob reward done of
                    Inl err \<Rightarrow> Inl err
                  | Inr (reward1, done1) \<Rightarrow>
                     (case move_shaping w' a reward1 done1 of
                        Inl err \<Rightarrow> Inl err
                      | Inr (reward2, done2) \<Rightarrow> Inr ((ob, reward2, done2, info), w'))))))"

text \<open>
  \<open>off_policy\<close>. The value estimates are a two-dimensional tensor, one row per control
  dimension. \<open>max()\<close> of a tensor without elements raises \<open>RuntimeError\<close>, and
  \<open>max(dim=1)\<close> along an axis of length zero raises \<open>IndexError\<close>. \<open>list_max\<close> is
  the maximum of a list by a left fold; \<open>off_policy\<close> calls it on non-empty lists only.
\<close>

datatype q_val = Scalar real | Vector "real list"

fun list_max :: "real list \<Rightarrow> real" where
  "list_max [] = 0"
| "list_max (x # xs) = fold max xs x"

definition off_policy :: "'s EnvWrapper \<Rightarrow> real list list \<Rightarrow> error + q_val" where
  "off_policy w q_vals =
     (if action_type w = REGULAR then
        (if concat q_vals = [] then Inl RuntimeError
         else Inr (Scalar (list_max (concat q_vals))))
      else if action_type w = DISCRETIZIED then
        (if list_ex (\<lambda>row. row = []) q_vals then Inl IndexError
         else Inr (Vector (map list_max q_vals)))
      else Inl NotImplementedError)"

section \<open>\<open>AsyncEnvGen\<close>\<close>





section \<open>Example environments\<close>

text \<open>
  A Sokoban environment with the player at row 1, column 2 of a given room, a wrapper
  around it, and an environment step that leaves the environment as it is, returns a
  given raw observation, the reward \<open>-0.1\<close> and \<open>done = False\<close>, and reports the action
  it received as its info. They serve as concrete inputs.
\<close>

definition example_env :: "room \<Rightarrow> unit gym_env" where
  "example_env rm =
     \<lparr>observation_space_shape0 = 160, action_space = Discrete 13, room_state = Some rm,
      player_position = Some (1, 2), env_max_steps = 300, sim = ()\<rparr>"

definition example_wrapper :: "ObsType \<Rightarrow> ActionType \<Rightarrow> bool \<Rightarrow> bool \<Rightarrow> room \<Rightarrow> unit EnvWrapper" where
  "example_wrapper otype atype ct mt rm =
     \<lparr>obs_type = otype, env = example_env rm, env_name = ''Sokoban'', max_steps = 300,
      action_type = atype, num_discrete = 0, discrete_array = [], split_discrete_array = [],
      cone_trick = ct, move_trick = mt, obs_size = 160, num_actions = 8\<rparr>"


text \<open>
  A lander environment: eight observation components, two continuous controls with the
  bounds \<open>-1\<close> and \<open>1\<close>, no room.
\<close>

definition lander_env :: "unit gym_env" where
  "lander_env =
     \<lparr>observation_space_shape0 = 8, action_space = Box [- 1, - 1] [1, 1],
      room_state = None, player_position = None, env_max_steps = 1000, sim = ()\<rparr>"

section \<open>Properties of the validator\<close>

lemma np_index_in_range:
  "0 \<le> i \<Longrightarrow> i < int (length xs) \<Longrightarrow> np_index xs i = Inr (xs ! nat i)"
  by (simp add: np_index_def)

lemma room_at_in_grid:
  "in_grid rm (i, j) \<Longrightarrow> room_at rm i j = Inr (cell rm (i, j))"
  by (simp add: room_at_def in_grid_def cell_def np_index_in_range)

lemma TileType_of_WALL: "tile_code v \<Longrightarrow> (TileType_of v = Inr WALL) = (v = 0)"
  by (auto simp: TileType_of_def tile_code_def)

lemma TileType_of_total: "tile_code v \<Longrightarrow> \<exists>t. TileType_of v = Inr t"
  by (auto simp: TileType_of_def tile_code_def)

lemma TileType_of_box:
  "tile_code v \<Longrightarrow> TileType_of v = Inr t \<Longrightarrow> (t \<in> set BOX_TILES) = (v = 4 \<or> v = 3)"
  by (auto simp: TileType_of_def tile_code_def BOX_TILES_def split: if_splits)

lemma is_pull_PULL_MOVES: "(move \<in> set PULL_MOVES) = is_pull move"
  by (cases move) (simp_all add: PULL_MOVES_def)

lemma get_tiles_displacement:
  "get_tiles rm p move =
     (case room_at rm (fst (ahead p move)) (snd (ahead p move)) of
        Inl e \<Rightarrow> Inl e
      | Inr va \<Rightarrow>
         (case TileType_of va of
            Inl e \<Rightarrow> Inl e
          | Inr ta \<Rightarrow>
             (case room_at rm (fst (behind p move)) (snd (behind p move)) of
                Inl e \<Rightarrow> Inl e
              | Inr vb \<Rightarrow>
                 (case TileType_of vb of
                    Inl e \<Rightarrow> Inl e
                  | Inr tb \<Rightarrow> Inr (ta, tb)))))"
  by (cases move) (simp_all add: get_tiles_def ahead_def behind_def cong: sum.case_cong)

lemma is_valid_command_reads:
  assumes "room_at rm (fst (ahead p move)) (snd (ahead p move)) = Inr va"
    and "room_at rm (fst (behind p move)) (snd (behind p move)) = Inr vb"
    and "tile_code va" and "tile_code vb"
  shows "is_valid_command rm p move =
           Inr (\<not> (va = 0 \<or> (is_pull move \<and> vb \<noteq> 4 \<and> vb \<noteq> 3)))"
proof -
  obtain ta where ta: "TileType_of va = Inr ta"
    using TileType_of_total [OF assms(3)] by blast
  obtain tb where tb: "TileType_of vb = Inr tb"
    using TileType_of_total [OF assms(4)] by blast
  have g: "get_tiles rm p move = Inr (ta, tb)"
    by (simp add: get_tiles_displacement assms(1,2) ta tb)
  have w: "(ta = WALL) = (va = 0)"
    using TileType_of_WALL [OF assms(3)] ta by simp
  have bx: "(tb \<in> set BOX_TILES) = (vb = 4 \<or> vb = 3)"
    using TileType_of_box [OF assms(4) tb] .
  show ?thesis
    by (simp add: is_valid_command_def g w bx is_pull_PULL_MOVES)
qed

lemma is_valid_command_raises_ahead:
  assumes "room_at rm (fst (ahead p move)) (snd (ahead p move)) = Inl e"
  shows "get_tiles rm p move = Inl e \<and> is_valid_command rm p move = Inl e"
  by (simp add: is_valid_command_def get_tiles_displacement assms)

lemma is_valid_command_raises_behind:
  assumes "room_at rm (fst (ahead p move)) (snd (ahead p move)) = Inr va"
    and "tile_code va"
    and "room_at rm (fst (behind p move)) (snd (behind p move)) = Inl e"
  shows "get_tiles rm p move = Inl e \<and> is_valid_command rm p move = Inl e"
proof -
  obtain ta where ta: "TileType_of va = Inr ta"
    using TileType_of_total [OF assms(2)] by blast
  show ?thesis
    by (simp add: is_valid_command_def get_tiles_displacement assms(1,3) ta)
qed

lemma np_index_wrap:
  "- int (length xs) \<le> i \<Longrightarrow> i < int (length xs)
     \<Longrightarrow> np_index xs i = Inr (xs ! nat (wrap (length xs) i))"
  by (simp add: np_index_def wrap_def Let_def)

lemma np_index_past_end: "int (length xs) \<le> i \<Longrightarrow> np_index xs i = Inl IndexError"
  by (simp add: np_index_def Let_def)

lemma wrap_range:
  "- int n \<le> i \<Longrightarrow> i < int n \<Longrightarrow> 0 \<le> wrap n i \<and> wrap n i < int n"
  by (simp add: wrap_def)

lemma well_formed_row:
  assumes "well_formed_room rm" and "0 \<le> k" and "k < int (length rm)"
  shows "length (rm ! nat k) = length (hd rm) \<and> list_all tile_code (rm ! nat k)"
proof -
  have "nat k < length rm" using assms(2,3) by linarith
  then have m: "rm ! nat k \<in> set rm" by (rule nth_mem)
  have "\<forall>row\<in>set rm. length row = length (hd rm) \<and> list_all tile_code row"
    using assms(1) unfolding well_formed_room_def list_all_iff by blast
  then show ?thesis using m by blast
qed

lemma room_at_wrap:
  assumes wf: "well_formed_room rm"
    and i: "- int (length rm) \<le> i" "i < int (length rm)"
    and j: "- int (length (hd rm)) \<le> j" "j < int (length (hd rm))"
  shows "room_at rm i j = Inr (cell rm (wrap (length rm) i, wrap (length (hd rm)) j))
         \<and> tile_code (cell rm (wrap (length rm) i, wrap (length (hd rm)) j))"
proof -
  define r where "r = wrap (length rm) i"
  define c where "c = wrap (length (hd rm)) j"
  have r: "0 \<le> r \<and> r < int (length rm)" unfolding r_def using wrap_range [OF i] .
  have c: "0 \<le> c \<and> c < int (length (hd rm))" unfolding c_def using wrap_range [OF j] .
  have row: "length (rm ! nat r) = length (hd rm) \<and> list_all tile_code (rm ! nat r)"
    using well_formed_row [OF wf, of r] r by blast
  have 1: "np_index rm i = Inr (rm ! nat r)" unfolding r_def using np_index_wrap [OF i] .
  have j': "- int (length (rm ! nat r)) \<le> j" "j < int (length (rm ! nat r))"
    using j row by simp_all
  have 2: "np_index (rm ! nat r) j = Inr (rm ! nat r ! nat c)"
    using np_index_wrap [OF j'] row unfolding c_def by simp
  have "nat c < length (rm ! nat r)" using c row by linarith
  then have "rm ! nat r ! nat c \<in> set (rm ! nat r)" by (rule nth_mem)
  then have 3: "tile_code (rm ! nat r ! nat c)" using row unfolding list_all_iff by blast
  have "room_at rm i j = Inr (cell rm (r, c)) \<and> tile_code (cell rm (r, c))"
    by (simp add: room_at_def 1 2 3 cell_def)
  then show ?thesis unfolding r_def c_def .
qed

lemma room_at_past_end:
  assumes wf: "well_formed_room rm"
    and i: "- int (length rm) \<le> i"
    and ij: "int (length rm) \<le> i \<or> int (length (hd rm)) \<le> j"
  shows "room_at rm i j = Inl IndexError"
proof (cases "int (length rm) \<le> i")
  case True
  then show ?thesis by (simp add: room_at_def np_index_past_end)
next
  case False
  then have i2: "i < int (length rm)" by simp
  have j: "int (length (hd rm)) \<le> j" using ij False by simp
  define r where "r = wrap (length rm) i"
  have r: "0 \<le> r \<and> r < int (length rm)" unfolding r_def using wrap_range [OF i i2] .
  have row: "length (rm ! nat r) = length (hd rm)"
    using well_formed_row [OF wf, of r] r by blast
  have 1: "np_index rm i = Inr (rm ! nat r)" unfolding r_def using np_index_wrap [OF i i2] .
  have j': "int (length (rm ! nat r)) \<le> j" using j row by simp
  have 2: "np_index (rm ! nat r) j = Inl IndexError"
    using np_index_past_end [OF j'] .
  show ?thesis by (simp add: room_at_def 1 2)
qed

lemma displacement_cases:
  "displacement move = (- 1, 0) \<or> displacement move = (1, 0)
   \<or> displacement move = (0, - 1) \<or> displacement move = (0, 1)"
  by (cases move) simp_all


lemma validator_reads_wrapped:
  assumes wf: "well_formed_room rm"
    and a: "- int (length rm) \<le> fst (ahead p move)" "fst (ahead p move) < int (length rm)"
           "- int (length (hd rm)) \<le> snd (ahead p move)"
           "snd (ahead p move) < int (length (hd rm))"
    and b: "- int (length rm) \<le> fst (behind p move)" "fst (behind p move) < int (length rm)"
           "- int (length (hd rm)) \<le> snd (behind p move)"
           "snd (behind p move) < int (length (hd rm))"
  shows "is_valid_command rm p move =
           Inr (\<not> (cell rm (wrap (length rm) (fst (ahead p move)),
                             wrap (length (hd rm)) (snd (ahead p move))) = 0
                   \<or> (is_pull move
                       \<and> cell rm (wrap (length rm) (fst (behind p move)),
                                   wrap (length (hd rm)) (snd (behind p move))) \<noteq> 4
                       \<and> cell rm (wrap (length rm) (fst (behind p move)),
                                   wrap (length (hd rm)) (snd (behind p move))) \<noteq> 3)))"
proof -
  note ra = room_at_wrap [OF wf a]
  note rb = room_at_wrap [OF wf b]
  show ?thesis
    using is_valid_command_reads [OF conjunct1 [OF ra] conjunct1 [OF rb]
        conjunct2 [OF ra] conjunct2 [OF rb]] .
qed

lemma validator_raises:
  assumes wf: "well_formed_room rm"
    and a: "- int (length rm) \<le> fst (ahead p move)"
           "- int (length (hd rm)) \<le> snd (ahead p move)"
    and b: "- int (length rm) \<le> fst (behind p move)"
    and past: "int (length rm) \<le> fst (ahead p move)
               \<or> int (length (hd rm)) \<le> snd (ahead p move)
               \<or> int (length rm) \<le> fst (behind p move)
               \<or> int (length (hd rm)) \<le> snd (behind p move)"
  shows "get_tiles rm p move = Inl IndexError \<and> is_valid_command rm p move = Inl IndexError"
proof (cases "int (length rm) \<le> fst (ahead p move)
               \<or> int (length (hd rm)) \<le> snd (ahead p move)")
  case True
  show ?thesis
    using is_valid_command_raises_ahead [OF room_at_past_end [OF wf a(1) True]] .
next
  case False
  then have a': "fst (ahead p move) < int (length rm)"
    "snd (ahead p move) < int (length (hd rm))" by simp_all
  note ra = room_at_wrap [OF wf a(1) a'(1) a(2) a'(2)]
  have pb: "int (length rm) \<le> fst (behind p move)
            \<or> int (length (hd rm)) \<le> snd (behind p move)"
    using past False by blast
  show ?thesis
    using is_valid_command_raises_behind
      [OF conjunct1 [OF ra] conjunct2 [OF ra] room_at_past_end [OF wf b pb]] .
qed

lemma in_grid_well_formed:
  assumes wf: "well_formed_room rm" and p: "in_grid rm (r, c)"
  shows "0 \<le> r \<and> r < int (length rm) \<and> 0 \<le> c \<and> c < int (length (hd rm))"
proof -
  have r: "0 \<le> r \<and> r < int (length rm)" using p by (simp add: in_grid_def)
  have "length (rm ! nat r) = length (hd rm)" using well_formed_row [OF wf, of r] r by blast
  then show ?thesis using p by (simp add: in_grid_def)
qed

lemma well_formed_in_grid:
  assumes wf: "well_formed_room rm"
    and "0 \<le> r" "r < int (length rm)" "0 \<le> c" "c < int (length (hd rm))"
  shows "in_grid rm (r, c)"
proof -
  have "length (rm ! nat r) = length (hd rm)"
    using well_formed_row [OF wf, of r] assms(2,3) by blast
  then show ?thesis using assms(2-5) by (simp add: in_grid_def)
qed

text \<open>
  C1 (as amended). For a player position whose two neighbouring cells along the axis of
  the move lie inside the grid and hold tile codes (0 to 5), \<open>is_valid_command\<close> returns
  a verdict, and the verdict is false exactly when the cell ahead holds WALL (code 0), or
  the move is a pull move and the cell behind holds neither BOX (4) nor BOX_ON_TARGET (3);
  in every other case it is true. The function is a function of its three arguments only.
\<close>

theorem is_valid_command_in_grid:
  assumes "in_grid rm (ahead p move)" and "in_grid rm (behind p move)"
    and "tile_code (cell rm (ahead p move))" and "tile_code (cell rm (behind p move))"
  shows "is_valid_command rm p move =
           Inr (\<not> (cell rm (ahead p move) = 0
                   \<or> (is_pull move \<and> cell rm (behind p move) \<noteq> 4
                        \<and> cell rm (behind p move) \<noteq> 3)))"
proof -
  have a: "room_at rm (fst (ahead p move)) (snd (ahead p move)) = Inr (cell rm (ahead p move))"
    using assms(1) room_at_in_grid [of rm "fst (ahead p move)" "snd (ahead p move)"] by simp
  have b: "room_at rm (fst (behind p move)) (snd (behind p move)) = Inr (cell rm (behind p move))"
    using assms(2) room_at_in_grid [of rm "fst (behind p move)" "snd (behind p move)"] by simp
  show ?thesis
    using is_valid_command_reads [OF a b assms(3,4)] .
qed

text \<open>
  A pull to the right with a box on the player's left and floor on the right is valid.
\<close>

theorem is_valid_command_in_grid_witness:
  "in_grid [[0, 0, 0, 0], [0, 4, 5, 1], [0, 0, 0, 0]] (ahead (1, 2) PULL_RIGHT)
   \<and> in_grid [[0, 0, 0, 0], [0, 4, 5, 1], [0, 0, 0, 0]] (behind (1, 2) PULL_RIGHT)
   \<and> tile_code (cell [[0, 0, 0, 0], [0, 4, 5, 1], [0, 0, 0, 0]] (ahead (1, 2) PULL_RIGHT))
   \<and> tile_code (cell [[0, 0, 0, 0], [0, 4, 5, 1], [0, 0, 0, 0]] (behind (1, 2) PULL_RIGHT))
   \<and> is_valid_command [[0, 0, 0, 0], [0, 4, 5, 1], [0, 0, 0, 0]] (1, 2) PULL_RIGHT = Inr True"
  using is_valid_command_in_grid
          [of "[[0, 0, 0, 0], [0, 4, 5, 1], [0, 0, 0, 0]]" "(1, 2)" PULL_RIGHT]
  by (simp add: in_grid_def ahead_def behind_def cell_def tile_code_def)

text \<open>
  C1 as stated, for every position, fails at the edges of the grid. On the bottom row a
  push down raises \<open>IndexError\<close>, so no verdict is returned although no WALL lies ahead
  and the move is not a pull. On the top row a push up reads the bottom row: the verdict
  is false because of a WALL that is not next to the player.
\<close>

theorem is_valid_command_every_position_counterexample:
  "is_valid_command [[1, 1, 1], [1, 5, 1]] (1, 1) PUSH_DOWN = Inl IndexError
   \<and> is_valid_command [[1, 5, 1], [1, 1, 1], [1, 0, 1]] (0, 1) PUSH_UP = Inr False"
  by (simp add: is_valid_command_def get_tiles_def room_at_def np_index_def TileType_of_def
      PULL_MOVES_def BOX_TILES_def)

text \<open>
  C10. \<open>get_tiles\<close> indexes the grid at the position plus and minus the unit
  displacement with no bounds check. In a well-formed room, with the player on a cell of
  the grid: on the top row a move up reads index \<open>-1\<close>, which is the bottom row, and on
  the leftmost column a move left reads the rightmost column, so that (in a grid of at
  least two rows, respectively columns) \<open>is_valid_command\<close> returns a verdict computed
  from the opposite edge; on the bottom row a move down, and on the rightmost column a
  move right, index past the end and raise \<open>IndexError\<close>. The validator returns a verdict
  exactly when neither read indexes past the end, and it returns one without any
  wrap-around only when both cells along the axis of the move lie inside the grid.
\<close>

theorem get_tiles_no_bounds_check:
  assumes wf: "well_formed_room rm" and p: "in_grid rm (r, c)"
  shows
    "(r = 0 \<and> 2 \<le> length rm \<and> (move = PUSH_UP \<or> move = PULL_UP) \<longrightarrow>
        is_valid_command rm (r, c) move =
          Inr (\<not> (cell rm (int (length rm) - 1, c) = 0
                  \<or> (is_pull move \<and> cell rm (1, c) \<noteq> 4 \<and> cell rm (1, c) \<noteq> 3))))
     \<and> (c = 0 \<and> 2 \<le> length (hd rm) \<and> (move = PUSH_LEFT \<or> move = PULL_LEFT) \<longrightarrow>
        is_valid_command rm (r, c) move =
          Inr (\<not> (cell rm (r, int (length (hd rm)) - 1) = 0
                  \<or> (is_pull move \<and> cell rm (r, 1) \<noteq> 4 \<and> cell rm (r, 1) \<noteq> 3))))
     \<and> (r = int (length rm) - 1 \<and> (move = PUSH_DOWN \<or> move = PULL_DOWN) \<longrightarrow>
        get_tiles rm (r, c) move = Inl IndexError
        \<and> is_valid_command rm (r, c) move = Inl IndexError)
     \<and> (c = int (length (hd rm)) - 1 \<and> (move = PUSH_RIGHT \<or> move = PULL_RIGHT) \<longrightarrow>
        get_tiles rm (r, c) move = Inl IndexError
        \<and> is_valid_command rm (r, c) move = Inl IndexError)
     \<and> ((\<exists>v. is_valid_command rm (r, c) move = Inr v) =
          (fst (ahead (r, c) move) < int (length rm)
           \<and> fst (behind (r, c) move) < int (length rm)
           \<and> snd (ahead (r, c) move) < int (length (hd rm))
           \<and> snd (behind (r, c) move) < int (length (hd rm))))
     \<and> ((\<exists>v. is_valid_command rm (r, c) move = Inr v)
          \<and> wrap (length rm) (fst (ahead (r, c) move)) = fst (ahead (r, c) move)
          \<and> wrap (length (hd rm)) (snd (ahead (r, c) move)) = snd (ahead (r, c) move)
          \<and> wrap (length rm) (fst (behind (r, c) move)) = fst (behind (r, c) move)
          \<and> wrap (length (hd rm)) (snd (behind (r, c) move)) = snd (behind (r, c) move)
        \<longrightarrow> in_grid rm (ahead (r, c) move) \<and> in_grid rm (behind (r, c) move))"
proof -
  have rc: "0 \<le> r \<and> r < int (length rm) \<and> 0 \<le> c \<and> c < int (length (hd rm))"
    using in_grid_well_formed [OF wf p] .
  have lo: "- int (length rm) \<le> fst (ahead (r, c) move)"
      "- int (length (hd rm)) \<le> snd (ahead (r, c) move)"
      "- int (length rm) \<le> fst (behind (r, c) move)"
      "- int (length (hd rm)) \<le> snd (behind (r, c) move)"
    using rc displacement_cases [of move] by (auto simp: ahead_def behind_def)
  have total: "(\<exists>v. is_valid_command rm (r, c) move = Inr v) =
          (fst (ahead (r, c) move) < int (length rm)
           \<and> fst (behind (r, c) move) < int (length rm)
           \<and> snd (ahead (r, c) move) < int (length (hd rm))
           \<and> snd (behind (r, c) move) < int (length (hd rm)))"
  proof (cases "fst (ahead (r, c) move) < int (length rm)
           \<and> fst (behind (r, c) move) < int (length rm)
           \<and> snd (ahead (r, c) move) < int (length (hd rm))
           \<and> snd (behind (r, c) move) < int (length (hd rm))")
    case True
    then have hi: "fst (ahead (r, c) move) < int (length rm)"
      "fst (behind (r, c) move) < int (length rm)"
      "snd (ahead (r, c) move) < int (length (hd rm))"
      "snd (behind (r, c) move) < int (length (hd rm))" by blast+
    have "\<exists>v. is_valid_command rm (r, c) move = Inr v"
      using validator_reads_wrapped [OF wf lo(1) hi(1) lo(2) hi(3) lo(3) hi(2) lo(4) hi(4)]
      by blast
    then show ?thesis using True by blast
  next
    case False
    then have "int (length rm) \<le> fst (ahead (r, c) move)
               \<or> int (length (hd rm)) \<le> snd (ahead (r, c) move)
               \<or> int (length rm) \<le> fst (behind (r, c) move)
               \<or> int (length (hd rm)) \<le> snd (behind (r, c) move)" by linarith
    then have "is_valid_command rm (r, c) move = Inl IndexError"
      using validator_raises [OF wf lo(1) lo(2) lo(3)] by blast
    then show ?thesis using False by simp
  qed
  have top: "is_valid_command rm (r, c) move =
          Inr (\<not> (cell rm (int (length rm) - 1, c) = 0
                  \<or> (is_pull move \<and> cell rm (1, c) \<noteq> 4 \<and> cell rm (1, c) \<noteq> 3)))"
    if h: "r = 0" "2 \<le> length rm" "move = PUSH_UP \<or> move = PULL_UP"
  proof -
    have a: "ahead (r, c) move = (- 1, c)" and b: "behind (r, c) move = (1, c)"
      using h(1,3) by (auto simp: ahead_def behind_def)
    have hi: "fst (ahead (r, c) move) < int (length rm)"
      "fst (behind (r, c) move) < int (length rm)"
      "snd (ahead (r, c) move) < int (length (hd rm))"
      "snd (behind (r, c) move) < int (length (hd rm))"
      using rc h(2) by (simp_all add: a b)
    show ?thesis
      using validator_reads_wrapped [OF wf lo(1) hi(1) lo(2) hi(3) lo(3) hi(2) lo(4) hi(4)] rc
      by (simp add: a b wrap_def)
  qed
  have left: "is_valid_command rm (r, c) move =
          Inr (\<not> (cell rm (r, int (length (hd rm)) - 1) = 0
                  \<or> (is_pull move \<and> cell rm (r, 1) \<noteq> 4 \<and> cell rm (r, 1) \<noteq> 3)))"
    if h: "c = 0" "2 \<le> length (hd rm)" "move = PUSH_LEFT \<or> move = PULL_LEFT"
  proof -
    have a: "ahead (r, c) move = (r, - 1)" and b: "behind (r, c) move = (r, 1)"
      using h(1,3) by (auto simp: ahead_def behind_def)
    have hi: "fst (ahead (r, c) move) < int (length rm)"
      "fst (behind (r, c) move) < int (length rm)"
      "snd (ahead (r, c) move) < int (length (hd rm))"
      "snd (behind (r, c) move) < int (length (hd rm))"
      using rc h(2) by (simp_all add: a b)
    show ?thesis
      using validator_reads_wrapped [OF wf lo(1) hi(1) lo(2) hi(3) lo(3) hi(2) lo(4) hi(4)] rc
      by (simp add: a b wrap_def)
  qed
  have bottom: "get_tiles rm (r, c) move = Inl IndexError
        \<and> is_valid_command rm (r, c) move = Inl IndexError"
    if h: "r = int (length rm) - 1" "move = PUSH_DOWN \<or> move = PULL_DOWN"
  proof -
    have "fst (ahead (r, c) move) = int (length rm)"
      using h by (auto simp: ahead_def)
    then show ?thesis
      using validator_raises [OF wf lo(1) lo(2) lo(3)] by simp
  qed
  have right: "get_tiles rm (r, c) move = Inl IndexError
        \<and> is_valid_command rm (r, c) move = Inl IndexError"
    if h: "c = int (length (hd rm)) - 1" "move = PUSH_RIGHT \<or> move = PULL_RIGHT"
  proof -
    have "snd (ahead (r, c) move) = int (length (hd rm))"
      using h by (auto simp: ahead_def)
    then show ?thesis
      using validator_raises [OF wf lo(1) lo(2) lo(3)] by simp
  qed
  have inside: "in_grid rm (ahead (r, c) move) \<and> in_grid rm (behind (r, c) move)"
    if h: "\<exists>v. is_valid_command rm (r, c) move = Inr v"
      "wrap (length rm) (fst (ahead (r, c) move)) = fst (ahead (r, c) move)"
      "wrap (length (hd rm)) (snd (ahead (r, c) move)) = snd (ahead (r, c) move)"
      "wrap (length rm) (fst (behind (r, c) move)) = fst (behind (r, c) move)"
      "wrap (length (hd rm)) (snd (behind (r, c) move)) = snd (behind (r, c) move)"
  proof -
    have hi: "fst (ahead (r, c) move) < int (length rm)"
      "fst (behind (r, c) move) < int (length rm)"
      "snd (ahead (r, c) move) < int (length (hd rm))"
      "snd (behind (r, c) move) < int (length (hd rm))"
      using h(1) total by blast+
    have nn: "0 \<le> fst (ahead (r, c) move)" "0 \<le> snd (ahead (r, c) move)"
      "0 \<le> fst (behind (r, c) move)" "0 \<le> snd (behind (r, c) move)"
      using h(2-5) rc by (auto simp: wrap_def split: if_splits)
    have "in_grid rm (fst (ahead (r, c) move), snd (ahead (r, c) move))"
      using well_formed_in_grid [OF wf nn(1) hi(1) nn(2) hi(3)] .
    moreover have "in_grid rm (fst (behind (r, c) move), snd (behind (r, c) move))"
      using well_formed_in_grid [OF wf nn(3) hi(2) nn(4) hi(4)] .
    ultimately show ?thesis by simp
  qed
  show ?thesis
    using total top left bottom right inside by blast
qed

text \<open>
  A push up from the top row is judged by the WALL of the bottom row; a push down from
  the bottom row raises.
\<close>

theorem get_tiles_no_bounds_check_witness:
  "well_formed_room [[1, 5, 1], [1, 1, 1], [1, 0, 1]]
   \<and> in_grid [[1, 5, 1], [1, 1, 1], [1, 0, 1]] (0, 1)
   \<and> in_grid [[1, 1, 1], [1, 1, 1], [1, 5, 1]] (2, 1)
   \<and> is_valid_command [[1, 5, 1], [1, 1, 1], [1, 0, 1]] (0, 1) PUSH_UP = Inr False
   \<and> get_tiles [[1, 1, 1], [1, 1, 1], [1, 5, 1]] (2, 1) PUSH_DOWN = Inl IndexError
   \<and> is_valid_command [[1, 1, 1], [1, 1, 1], [1, 5, 1]] (2, 1) PUSH_DOWN = Inl IndexError"
proof -
  have wf1: "well_formed_room [[1, 5, 1], [1, 1, 1], [1, 0, 1]]"
    by (simp add: well_formed_room_def tile_code_def)
  have wf2: "well_formed_room [[1, 1, 1], [1, 1, 1], [1, 5, 1]]"
    by (simp add: well_formed_room_def tile_code_def)
  have p1: "in_grid [[1, 5, 1], [1, 1, 1], [1, 0, 1]] (0, 1)"
    by (simp add: in_grid_def)
  have p2: "in_grid [[1, 1, 1], [1, 1, 1], [1, 5, 1]] (2, 1)"
    by (simp add: in_grid_def)
  have top: "is_valid_command [[1, 5, 1], [1, 1, 1], [1, 0, 1]] (0, 1) PUSH_UP = Inr False"
    using get_tiles_no_bounds_check [OF wf1 p1, of PUSH_UP] by (simp add: cell_def)
  have bottom: "get_tiles [[1, 1, 1], [1, 1, 1], [1, 5, 1]] (2, 1) PUSH_DOWN = Inl IndexError
    \<and> is_valid_command [[1, 1, 1], [1, 1, 1], [1, 5, 1]] (2, 1) PUSH_DOWN = Inl IndexError"
    using get_tiles_no_bounds_check [OF wf2 p2, of PUSH_DOWN] by simp
  show ?thesis using wf1 p1 p2 top bottom by blast
qed

section \<open>Properties of \<open>step\<close>, \<open>reset\<close> and \<open>process_obs\<close>\<close>

lemma step_info:
  assumes "step (\<lambda>e a. Inr ((raw, reward, done, a), e)) w a0 = Inr ((ob, r, d, info), w')"
  shows "encode_action (action_type w) a0 = Inr info"
  using assms
  by (auto simp: step_def Let_def split: sum.splits prod.splits)


lemma encode_push_pull_list:
  "map (\<lambda>i. encode_action PUSH_PULL (Index i)) [0, 1, 2, 3, 4, 5, 6, 7]
     = map (\<lambda>k. Inr (Index k)) [1, 2, 3, 4, 9, 10, 11, 12]"
  by (simp add: encode_action_def)

text \<open>
  C2. In \<open>step\<close>, a PUSH_ONLY index \<open>i\<close> is encoded as \<open>i + 1\<close>; a PUSH_PULL index \<open>i\<close> is
  encoded as \<open>i + 1\<close> when \<open>i + 1 < 5\<close> and as \<open>i + 1 + 4\<close> otherwise, so that the inputs
  0 to 7 map, in this order, to 1, 2, 3, 4, 9, 10, 11, 12; in REGULAR mode the action is
  unchanged. The encoded action is what the underlying environment's step receives: an
  environment that reports the action it was given as its info reports the encoded one.
\<close>

theorem step_encodes_action:
  "encode_action PUSH_ONLY (Index i) = Inr (Index (i + 1))
   \<and> encode_action PUSH_PULL (Index i) = Inr (Index (if i + 1 < 5 then i + 1 else i + 1 + 4))
   \<and> map (\<lambda>i. encode_action PUSH_PULL (Index i)) [0, 1, 2, 3, 4, 5, 6, 7]
        = map (\<lambda>k. Inr (Index k)) [1, 2, 3, 4, 9, 10, 11, 12]
   \<and> encode_action REGULAR a = Inr a
   \<and> (step (\<lambda>e x. Inr ((raw, reward, done, x), e)) w a0 = Inr ((ob, r, d, info), w')
        \<longrightarrow> encode_action (action_type w) a0 = Inr info)"
proof -
  have 1: "encode_action PUSH_ONLY (Index i) = Inr (Index (i + 1))"
    by (simp add: encode_action_def)
  have 2: "encode_action PUSH_PULL (Index i)
             = Inr (Index (if i + 1 < 5 then i + 1 else i + 1 + 4))"
    by (simp add: encode_action_def)
  have 3: "encode_action REGULAR a = Inr a"
    by (simp add: encode_action_def)
  show ?thesis using 1 2 3 encode_push_pull_list step_info by blast
qed

lemma example_step_push_pull:
  "step (\<lambda>e x. Inr (([], 0, False, x), e))
     (example_wrapper REGULAR_OBS PUSH_PULL False False []) (Index 4)
   = Inr ((Raw [], 0, False, Index 9), example_wrapper REGULAR_OBS PUSH_PULL False False [])"
  by (simp add: step_def example_wrapper_def encode_action_def process_obs_def
      cone_shaping_def move_shaping_def)

text \<open>The PUSH_PULL index 4 reaches the environment as 9.\<close>

theorem step_encodes_action_witness:
  "step (\<lambda>e x. Inr (([], 0, False, x), e))
     (example_wrapper REGULAR_OBS PUSH_PULL False False []) (Index 4)
   = Inr ((Raw [], 0, False, Index 9), example_wrapper REGULAR_OBS PUSH_PULL False False [])
   \<and> encode_action (action_type (example_wrapper REGULAR_OBS PUSH_PULL False False []))
        (Index 4) = Inr (Index 9)"
  using step_encodes_action [of 0 "Index 0" "[]" 0 False
      "example_wrapper REGULAR_OBS PUSH_PULL False False []" "Index 4" "Raw []" 0 False
      "Index 9" "example_wrapper REGULAR_OBS PUSH_PULL False False []"]
    example_step_push_pull
  by blast





lemma process_obs_room:
  assumes "obs_type w = ROOM_STATE_VECTOR \<or> obs_type w = ROOM_STATE_MATRIX"
  shows "process_obs w raw =
           (case room_state (env w) of
              None \<Rightarrow> Inl AttributeError
            | Some rm \<Rightarrow>
                Inr (if obs_type w = ROOM_STATE_VECTOR then RoomVector (concat rm)
                     else RoomMatrix rm))"
  using assms by (auto simp: process_obs_def split: option.splits)

text \<open>
  C9. Under ROOM_STATE_VECTOR and ROOM_STATE_MATRIX, \<open>process_obs\<close> does not depend on its
  observation argument: it returns the environment's current room, flattened row by row
  or as it is. The observation returned by \<open>reset\<close> and by \<open>step\<close> is therefore the
  projection of the room that the environment has after its own reset or step.
\<close>

theorem process_obs_ignores_raw:
  assumes "obs_type w = ROOM_STATE_VECTOR \<or> obs_type w = ROOM_STATE_MATRIX"
  shows "process_obs w raw1 = process_obs w raw2
     \<and> (room_state (env w) = Some rm \<longrightarrow>
          process_obs w raw1 =
            Inr (if obs_type w = ROOM_STATE_VECTOR then RoomVector (concat rm)
                 else RoomMatrix rm))
     \<and> (reset env_reset w = Inr (ob, w') \<longrightarrow>
          (\<exists>rm'. room_state (env w') = Some rm'
             \<and> ob = (if obs_type w = ROOM_STATE_VECTOR then RoomVector (concat rm')
                     else RoomMatrix rm')))
     \<and> (step env_step w a0 = Inr ((ob, r, d, info), w') \<longrightarrow>
          (\<exists>rm'. room_state (env w') = Some rm'
             \<and> ob = (if obs_type w = ROOM_STATE_VECTOR then RoomVector (concat rm')
                     else RoomMatrix rm')))"
proof -
  have po: "\<And>e raw. process_obs (w\<lparr>env := e\<rparr>) raw =
           (case room_state e of
              None \<Rightarrow> Inl AttributeError
            | Some rm \<Rightarrow>
                Inr (if obs_type w = ROOM_STATE_VECTOR then RoomVector (concat rm)
                     else RoomMatrix rm))"
    using assms by (auto simp: process_obs_def split: option.splits)
  have 1: "process_obs w raw1 = process_obs w raw2"
    by (simp add: process_obs_room [OF assms])
  have 2: "room_state (env w) = Some rm \<longrightarrow>
          process_obs w raw1 =
            Inr (if obs_type w = ROOM_STATE_VECTOR then RoomVector (concat rm)
                 else RoomMatrix rm)"
    by (simp add: process_obs_room [OF assms])
  have 3: "reset env_reset w = Inr (ob, w') \<longrightarrow>
          (\<exists>rm'. room_state (env w') = Some rm'
             \<and> ob = (if obs_type w = ROOM_STATE_VECTOR then RoomVector (concat rm')
                     else RoomMatrix rm'))"
    by (auto simp: reset_def po split: sum.splits prod.splits option.splits)
  have 4: "step env_step w a0 = Inr ((ob, r, d, info), w') \<longrightarrow>
          (\<exists>rm'. room_state (env w') = Some rm'
             \<and> ob = (if obs_type w = ROOM_STATE_VECTOR then RoomVector (concat rm')
                     else RoomMatrix rm'))"
    by (auto simp: step_def Let_def po split: sum.splits prod.splits option.splits)
  show ?thesis using 1 2 3 4 by blast
qed

text \<open>
  A wrapper in ROOM_STATE_VECTOR mode around a two by two room: any raw observation is
  projected to the flattened room.
\<close>

theorem process_obs_ignores_raw_witness:
  "obs_type (example_wrapper ROOM_STATE_VECTOR REGULAR False False [[0, 4], [5, 1]])
     = ROOM_STATE_VECTOR
   \<and> process_obs (example_wrapper ROOM_STATE_VECTOR REGULAR False False [[0, 4], [5, 1]])
        [1, 2, 3]
     = process_obs (example_wrapper ROOM_STATE_VECTOR REGULAR False False [[0, 4], [5, 1]]) []
   \<and> process_obs (example_wrapper ROOM_STATE_VECTOR REGULAR False False [[0, 4], [5, 1]])
        [1, 2, 3]
     = Inr (RoomVector [0, 4, 5, 1])"
proof -
  let ?w = "example_wrapper ROOM_STATE_VECTOR REGULAR False False [[0, 4], [5, 1]]"
  have t: "obs_type ?w = ROOM_STATE_VECTOR"
    by (simp add: example_wrapper_def)
  have h: "obs_type ?w = ROOM_STATE_VECTOR \<or> obs_type ?w = ROOM_STATE_MATRIX"
    using t by simp
  have r: "room_state (env ?w) = Some [[0, 4], [5, 1]]"
    by (simp add: example_wrapper_def example_env_def)
  note th = process_obs_ignores_raw [OF h, of "[1, 2, 3]" "[]" "[[0, 4], [5, 1]]"]
  have 1: "process_obs ?w [1, 2, 3] = process_obs ?w []"
    using conjunct1 [OF th] .
  have 2: "process_obs ?w [1, 2, 3] = Inr (RoomVector [0, 4, 5, 1])"
    using conjunct1 [OF conjunct2 [OF th]] r t by simp
  show ?thesis using t 1 2 by blast
qed

section \<open>The cone trick\<close>









section \<open>Off-policy scoring\<close>

lemma list_max_Max: "xs \<noteq> [] \<Longrightarrow> list_max xs = Max (set xs)"
proof (cases xs)
  case Nil
  assume "xs \<noteq> []"
  with Nil show ?thesis by simp
next
  case (Cons a list)
  then show ?thesis using Max.set_eq_fold [of a list] by simp
qed

lemma map_list_max:
  "\<forall>row\<in>set q_vals. row \<noteq> [] \<Longrightarrow> map list_max q_vals = map (\<lambda>row. Max (set row)) q_vals"
  by (simp add: list_max_Max)

text \<open>
  C7. \<open>off_policy\<close> returns the maximum of all the value estimates in REGULAR mode and
  the maximum of each row in DISCRETIZIED mode (for estimates that have a maximum: a
  tensor, respectively rows, with at least one element); in every other mode it raises
  \<open>NotImplementedError\<close>. It is a function of the mode and the estimates, and returns no
  state.
\<close>

theorem off_policy_modes:
  "(action_type w = REGULAR \<and> concat q_vals \<noteq> [] \<longrightarrow>
      off_policy w q_vals = Inr (Scalar (Max (set (concat q_vals)))))
   \<and> (action_type w = DISCRETIZIED \<and> (\<forall>row\<in>set q_vals. row \<noteq> []) \<longrightarrow>
      off_policy w q_vals = Inr (Vector (map (\<lambda>row. Max (set row)) q_vals)))
   \<and> (action_type w \<noteq> REGULAR \<and> action_type w \<noteq> DISCRETIZIED \<longrightarrow>
      off_policy w q_vals = Inl NotImplementedError)"
proof -
  have 1: "off_policy w q_vals = Inr (Scalar (Max (set (concat q_vals))))"
    if "action_type w = REGULAR" "concat q_vals \<noteq> []"
    using that list_max_Max [of "concat q_vals"] by (simp add: off_policy_def)
  have 2: "off_policy w q_vals = Inr (Vector (map (\<lambda>row. Max (set row)) q_vals))"
    if "action_type w = DISCRETIZIED" "\<forall>row\<in>set q_vals. row \<noteq> []"
  proof -
    have "\<not> list_ex (\<lambda>row. row = []) q_vals" using that(2) by (simp add: list_ex_iff)
    then show ?thesis using that(1) map_list_max [OF that(2)] by (simp add: off_policy_def)
  qed
  have 3: "off_policy w q_vals = Inl NotImplementedError"
    if "action_type w \<noteq> REGULAR" "action_type w \<noteq> DISCRETIZIED"
    using that by (simp add: off_policy_def)
  show ?thesis using 1 2 3 by blast
qed

text \<open>
  Two rows of three estimates: the maximum 5 in REGULAR mode, the row maxima 5 and 4 in
  DISCRETIZIED mode, \<open>NotImplementedError\<close> in GAUSSIAN mode.
\<close>

theorem off_policy_modes_witness:
  "off_policy (example_wrapper REGULAR_OBS REGULAR False False []) [[1, 5, 2], [4, 3, 0]]
     = Inr (Scalar 5)
   \<and> off_policy (example_wrapper REGULAR_OBS DISCRETIZIED False False [])
       [[1, 5, 2], [4, 3, 0]] = Inr (Vector [5, 4])
   \<and> off_policy (example_wrapper REGULAR_OBS GAUSSIAN False False []) [[1, 5, 2], [4, 3, 0]]
     = Inl NotImplementedError"
proof -
  have 1: "off_policy (example_wrapper REGULAR_OBS REGULAR False False [])
             [[1, 5, 2], [4, 3, 0]] = Inr (Scalar 5)"
    using off_policy_modes [of "example_wrapper REGULAR_OBS REGULAR False False []"
        "[[1, 5, 2], [4, 3, 0]]"]
    by (simp add: example_wrapper_def)
  have 2: "off_policy (example_wrapper REGULAR_OBS DISCRETIZIED False False [])
             [[1, 5, 2], [4, 3, 0]] = Inr (Vector [5, 4])"
    using off_policy_modes [of "example_wrapper REGULAR_OBS DISCRETIZIED False False []"
        "[[1, 5, 2], [4, 3, 0]]"]
    by (simp add: example_wrapper_def)
  have 3: "off_policy (example_wrapper REGULAR_OBS GAUSSIAN False False [])
             [[1, 5, 2], [4, 3, 0]] = Inl NotImplementedError"
    using off_policy_modes [of "example_wrapper REGULAR_OBS GAUSSIAN False False []"
        "[[1, 5, 2], [4, 3, 0]]"]
    by (simp add: example_wrapper_def)
  show ?thesis using 1 2 3 by blast
qed

section \<open>The environment pool\<close>



section \<open>The discretization tables\<close>

lemma upt_0_5: "[0..<5] = [0, 1, 2, 3, 4]"
  by (simp add: upt_conv_Cons)

lemma upt_0_2: "[0..<2] = [0, 1]"
  by (simp add: upt_conv_Cons)

lemma torch_arange_count:
  assumes "0 < k" and "start \<noteq> end"
  shows "torch_arange start end ((end - start) / real k)
           = Inr (map (\<lambda>i. start + real i * ((end - start) / real k)) [0..<k])"
proof -
  let ?step = "(end - start) / real k"
  have k: "0 < real k" using assms(1) by simp
  have nz: "?step \<noteq> 0" using assms by simp
  have sgn: "\<not> ((0 < ?step \<and> end < start) \<or> (?step < 0 \<and> start < end))"
    using k by (auto simp: zero_less_divide_iff divide_less_0_iff)
  have "(end - start) / ?step = real k" using assms by simp
  then have c: "nat \<lceil>(end - start) / ?step\<rceil> = k" by simp
  show ?thesis
    unfolding torch_arange_def using nz sgn c by simp
qed

lemma arange_increasing:
  assumes "0 < (d :: real)"
  shows "sorted_wrt (<) (map (\<lambda>i. start + real i * d) [0..<k])"
proof -
  have "sorted_wrt (\<lambda>i j. start + real i * d < start + real j * d) [0..<k]"
    using assms by (intro sorted_wrt_mono_rel [OF _ sorted_wrt_upt]) simp
  then show ?thesis by (simp add: sorted_wrt_map)
qed

lemma arange_bounds:
  assumes "0 < k" and "start < end" and "v \<in> set (map (\<lambda>i. start + real i * ((end - start) / real k)) [0..<k])"
  shows "start \<le> v \<and> v < end"
proof -
  obtain i where i: "i < k" and v: "v = start + real i * ((end - start) / real k)"
    using assms(3) by auto
  have "real i / real k < 1" using i assms(1) by simp
  then have "real i / real k * (end - start) < 1 * (end - start)"
    using assms(2) by (intro mult_strict_right_mono) simp_all
  moreover have "0 \<le> real i / real k * (end - start)" using assms(2) by simp
  ultimately show ?thesis using v by (simp add: field_simps)
qed

lemma discretize_tables:
  assumes "low < high" and "low \<noteq> 0" and "high \<noteq> 0" and "2 \<le> n"
  shows "\<exists>darr sarr. discretize low high n = Inr (darr, sarr)
           \<and> length darr = nat n \<and> hd darr = low \<and> sorted_wrt (<) darr
           \<and> (\<forall>v\<in>set darr. low \<le> v \<and> v < high)
           \<and> length sarr = 2 * nat (n div 2)"
proof -
  define k where "k = nat n"
  define h where "h = nat (n div 2)"
  have k: "0 < k" "real_of_int n = real k" using assms(4) by (simp_all add: k_def)
  have h: "0 < h" "real_of_int (n div 2) = real h" using assms(4) by (simp_all add: h_def)
  have n0: "n \<noteq> 0" "n div 2 \<noteq> 0" using assms(4) by simp_all
  let ?darr = "map (\<lambda>i. low + real i * ((high - low) / real k)) [0..<k]"
  let ?a = "map (\<lambda>i. low + real i * ((low / 2 - low) / real h)) [0..<h]"
  let ?b = "map (\<lambda>i. high / 2 + real i * ((high - high / 2) / real h)) [0..<h]"
  have 1: "py_truediv (high - low) n = Inr ((high - low) / real k)"
    using n0 k by (simp add: py_truediv_def)
  have 2: "torch_arange low high ((high - low) / real k) = Inr ?darr"
    using torch_arange_count [OF k(1), of low high] assms(1) by simp
  have 3: "py_truediv (- low / 2) (n div 2) = Inr ((low / 2 - low) / real h)"
    using n0 h by (simp add: py_truediv_def)
  have 4: "torch_arange low (low / 2) ((low / 2 - low) / real h) = Inr ?a"
    using torch_arange_count [OF h(1), of low "low / 2"] assms(2) by simp
  have 5: "py_truediv (high / 2) (n div 2) = Inr ((high - high / 2) / real h)"
    using n0 h by (simp add: py_truediv_def)
  have 6: "torch_arange (high / 2) high ((high - high / 2) / real h) = Inr ?b"
    using torch_arange_count [OF h(1), of "high / 2" high] assms(3) by simp
  have d: "discretize low high n = Inr (?darr, ?a @ ?b)"
    unfolding discretize_def by (simp only: 1 2 3 4 5 6 sum.case prod.case)
  have len: "length ?darr = nat n" by (simp add: k_def)
  have hd: "hd ?darr = low" using k(1) by (simp add: hd_map upt_conv_Cons)
  have inc: "sorted_wrt (<) ?darr"
    using arange_increasing [of "(high - low) / real k" low k] assms(1) k(1) by simp
  have bnd: "\<forall>v\<in>set ?darr. low \<le> v \<and> v < high"
    using arange_bounds [OF k(1) assms(1)] by blast
  have slen: "length (?a @ ?b) = 2 * nat (n div 2)" by (simp add: h_def)
  show ?thesis using d len hd inc bnd slen by blast
qed

lemma step_keeps_tables:
  assumes "step env_step w a0 = Inr (res, w')"
  shows "discrete_array w' = discrete_array w
         \<and> split_discrete_array w' = split_discrete_array w
         \<and> num_discrete w' = num_discrete w \<and> num_actions w' = num_actions w"
  using assms by (auto simp: step_def Let_def split: sum.splits prod.splits)

text \<open>
  C6. For bounds \<open>low < high\<close> (both non-zero) and at least two buckets, \<open>discrete_array\<close>
  has \<open>num_discrete\<close> entries, starts at \<open>low\<close> and increases strictly below \<open>high\<close>
  (lemma \<open>discretize_tables\<close>), but \<open>split_discrete_array\<close> has
  \<open>2 * (num_discrete // 2)\<close> entries. Constructing a DISCRETIZIED wrapper around the
  lander with five buckets gives a table of five entries and a split table of four.
\<close>

theorem split_table_odd_num_discrete:
  "EnvWrapper_init (\<lambda>name. Inr lander_env) ''LunarLanderContinuous-v2'' BOX2D DISCRETIZIED 300
     \<lparr>kw_cone_trick = Some False, kw_move_trick = Some False, kw_num_discrete = Some 5\<rparr>
   = Inr \<lparr>obs_type = BOX2D, env = lander_env\<lparr>env_max_steps := 300\<rparr>,
          env_name = ''LunarLanderContinuous-v2'', max_steps = 300,
          action_type = DISCRETIZIED, num_discrete = 5,
          discrete_array = [- 1, - 3 / 5, - 1 / 5, 1 / 5, 3 / 5],
          split_discrete_array = [- 1, - 3 / 4, 1 / 2, 3 / 4],
          cone_trick = False, move_trick = False, obs_size = 8, num_actions = 2\<rparr>"
proof -
  have d: "discretize (- 1) 1 5
             = Inr ([- 1, - 3 / 5, - 1 / 5, 1 / 5, 3 / 5], [- 1, - 3 / 4, 1 / 2, 3 / 4])"
    by (simp add: discretize_def py_truediv_def torch_arange_def upt_0_5 upt_0_2)
  show ?thesis
    by (simp add: EnvWrapper_init_def kwargs_get_def init_obs_size_def init_actions_def
        lander_env_def d)
qed

end
